theory Spec2Isabelle
  imports Main
begin

section \<open>Python strings\<close>

text \<open>
  A Python \<^verbatim>\<open>str\<close> is a sequence of Unicode code points, and \<^verbatim>\<open>len\<close> and slicing
  count code points. The model therefore takes a string to be a list of code points
  (natural numbers), not a list of bytes. Literals of the source that are not ASCII are
  written out as their code points.
\<close>

type_synonym str = "nat list"

definition lit :: "string \<Rightarrow> str" where
  "lit cs = map of_char cs"

text \<open>
  \<^verbatim>\<open>str.isspace\<close> of one character: the code points Python treats as whitespace,
  which are the ones \<^verbatim>\<open>str.strip()\<close> removes at both ends.
\<close>

definition isspace :: "nat \<Rightarrow> bool" where
  "isspace c \<longleftrightarrow>
     (9 \<le> c \<and> c \<le> 13) \<or> (28 \<le> c \<and> c \<le> 32) \<or> c = 133 \<or> c = 160 \<or> c = 5760 \<or>
     (8192 \<le> c \<and> c \<le> 8202) \<or> c = 8232 \<or> c = 8233 \<or> c = 8239 \<or> c = 8287 \<or> c = 12288"

definition lstrip :: "str \<Rightarrow> str" where
  "lstrip s = dropWhile isspace s"

definition rstrip :: "str \<Rightarrow> str" where
  "rstrip s = rev (dropWhile isspace (rev s))"

definition strip :: "str \<Rightarrow> str" where
  "strip s = rstrip (lstrip s)"

text \<open>\<^verbatim>\<open>s.split("\n", 1)\<close>: at most one split, at the first line feed.\<close>

definition split1 :: "str \<Rightarrow> str list" where
  "split1 s =
     (if 10 \<in> set s
      then [takeWhile (\<lambda>c. c \<noteq> 10) s, tl (dropWhile (\<lambda>c. c \<noteq> 10) s)]
      else [s])"

section \<open>File names\<close>

text \<open>
  The character class of \<^verbatim>\<open>re.sub(r'[\\/*?:"<>|]', "", ...)\<close>: backslash, slash,
  asterisk, question mark, colon, double quote, less-than, greater-than and bar.
\<close>

definition forbidden :: "nat list" where
  "forbidden = [92, 47, 42, 63, 58, 34, 60, 62, 124]"

definition sanitize_filename :: "str \<Rightarrow> str" where
  "sanitize_filename title =
     (let sanitized = filter (\<lambda>c. c \<notin> set forbidden) (strip title)
      in take 50 sanitized)"

section \<open>Exceptions\<close>

text \<open>
  The exceptions the program raises or lets through, each with the text \<^verbatim>\<open>str(e)\<close>
  gives. \<open>APIError\<close> stands for whatever the model endpoint's client raises,
  \<open>OSError\<close> for a failure of the operating system on a file.
\<close>

datatype error =
    ValueError str
  | FileNotFoundError str
  | JSONDecodeError str
  | IndexError str
  | TypeError str
  | APIError str
  | OSError str

fun message :: "error \<Rightarrow> str" where
  "message (ValueError m) = m"
| "message (FileNotFoundError m) = m"
| "message (JSONDecodeError m) = m"
| "message (IndexError m) = m"
| "message (TypeError m) = m"
| "message (APIError m) = m"
| "message (OSError m) = m"

section \<open>Configuration\<close>

definition MAX_FILE_SIZE_MB :: nat where
  "MAX_FILE_SIZE_MB = 5"

definition ALLOWED_EXTENSIONS :: "str list" where
  "ALLOWED_EXTENSIONS = [lit ''.jpg'', lit ''.jpeg'', lit ''.png'']"

definition TEXTS_DIR :: str where
  "TEXTS_DIR = lit ''texts''"

definition RATES_DIR :: str where
  "RATES_DIR = lit ''rates''"

definition HISTORY_PATH :: str where
  "HISTORY_PATH = lit ''history.json''"

definition PROMPT_PATH :: str where
  "PROMPT_PATH = lit ''prompt/prompt.txt''"

section \<open>Library functions on strings and paths\<close>

text \<open>
  \<^verbatim>\<open>str.lower\<close>, on the ASCII letters. Python also lower-cases letters beyond
  ASCII, but no code point beyond ASCII has a lower-case form containing a character of
  the allowed extensions, so the membership test of the validation reads the same.
\<close>

definition lower :: "str \<Rightarrow> str" where
  "lower s = map (\<lambda>c. if 65 \<le> c \<and> c \<le> 90 then c + 32 else c) s"

text \<open>\<^verbatim>\<open>str(n)\<close> of a natural number: its decimal digits.\<close>

function str_of_nat :: "nat \<Rightarrow> str" where
  "str_of_nat n = (if n < 10 then [48 + n] else str_of_nat (n div 10) @ [48 + n mod 10])"
  by pat_completeness auto
termination
  by (relation "measure id") auto

declare str_of_nat.simps [simp del]

text \<open>\<^verbatim>\<open>s.split(sep)\<close> for a separator of one character.\<close>

fun split_on :: "nat \<Rightarrow> str \<Rightarrow> str list" where
  "split_on sep [] = [[]]"
| "split_on sep (c # cs) =
     (if c = sep then [] # split_on sep cs
      else (case split_on sep cs of
              [] \<Rightarrow> [[c]]
            | w # ws \<Rightarrow> (c # w) # ws))"

text \<open>
  \<^verbatim>\<open>Path(p).name\<close> and \<^verbatim>\<open>Path(p).suffix\<close> of \<^verbatim>\<open>pathlib\<close>, for POSIX paths:
  the name is the last component of the path that is neither empty nor a single dot;
  the suffix starts at the last dot of the name, when that dot is neither the first nor
  the last character of the name.
\<close>

definition path_name :: "str \<Rightarrow> str" where
  "path_name p =
     (let parts = filter (\<lambda>x. x \<noteq> [] \<and> x \<noteq> [46]) (split_on 47 p)
      in if parts = [] then [] else last parts)"

definition path_suffix :: "str \<Rightarrow> str" where
  "path_suffix p =
     (let name = path_name p in
      if 46 \<in> set name then
        (let i = length name - 1 - length (takeWhile (\<lambda>c. c \<noteq> 46) (rev name))
         in if 0 < i \<and> i < length name - 1 then drop i name else [])
      else [])"

section \<open>The uploaded files\<close>

text \<open>
  What the file system answers about an uploaded path: whether it exists
  (\<^verbatim>\<open>Path.exists\<close>), its size in bytes (\<^verbatim>\<open>stat().st_size\<close>), and what reading
  it in binary mode gives.
\<close>

record uploads =
  path_exists :: "str \<Rightarrow> bool"
  st_size :: "str \<Rightarrow> nat"
  read_bytes :: "str \<Rightarrow> error + nat list"

definition no_images_msg :: str where
  "no_images_msg = [26410, 19978, 20256, 20219, 20309, 22270, 29255]"

definition missing_msg :: str where
  "missing_msg = [25991, 20214, 19981, 23384, 22312, 58, 32]"

definition unsupported_msg :: str where
  "unsupported_msg = [19981, 25903, 25345, 30340, 25991, 20214, 31867, 22411, 58, 32]"

definition too_large_msg :: str where
  "too_large_msg = [25991, 20214, 36807, 22823, 58, 32]"

text \<open>
  The loop of \<^verbatim>\<open>validate_image_files\<close> over the paths: the first check that fails
  raises, and nothing after it is looked at.
\<close>

fun validate_loop :: "uploads \<Rightarrow> str list \<Rightarrow> error + unit" where
  "validate_loop u [] = Inr ()"
| "validate_loop u (file_path # rest) =
     (if \<not> path_exists u file_path then
        Inl (ValueError (missing_msg @ file_path))
      else if lower (path_suffix file_path) \<notin> set ALLOWED_EXTENSIONS then
        Inl (ValueError (unsupported_msg @ path_suffix file_path))
      else if st_size u file_path > MAX_FILE_SIZE_MB * 1024 * 1024 then
        Inl (ValueError (too_large_msg @ path_name file_path @ lit '' ('' @
               str_of_nat (st_size u file_path div 1024 div 1024) @ lit ''MB)''))
      else validate_loop u rest)"

definition validate_image_files :: "uploads \<Rightarrow> str list \<Rightarrow> error + unit" where
  "validate_image_files u files =
     (if files = [] then Inl (ValueError no_images_msg) else validate_loop u files)"

section \<open>JSON values and their text\<close>

text \<open>
  The values \<^verbatim>\<open>json.load\<close> returns and \<^verbatim>\<open>json.dump\<close> writes. A Python
  \<^verbatim>\<open>dict\<close> is an association list in insertion order with distinct keys. A number
  with a fraction or an exponent is kept as its lexeme; the history the program writes
  holds strings only.
\<close>

datatype json =
    JNull
  | JBool bool
  | JInt int
  | JFloat str
  | JStr str
  | JArr "json list"
  | JObj "(str \<times> json) list"

subsection \<open>Writing: \<^verbatim>\<open>json.dump(obj, f, ensure_ascii=False, indent=2)\<close>\<close>

definition hexdigit :: "nat \<Rightarrow> nat" where
  "hexdigit d = (if d < 10 then 48 + d else 87 + d)"

text \<open>
  With \<^verbatim>\<open>ensure_ascii=False\<close> the encoder escapes the double quote, the backslash
  and the control characters below 32, and writes every other code point as it is.
\<close>

definition escape_char :: "nat \<Rightarrow> str" where
  "escape_char c =
     (if c = 34 then [92, 34]
      else if c = 92 then [92, 92]
      else if c = 10 then [92, 110]
      else if c = 13 then [92, 114]
      else if c = 9 then [92, 116]
      else if c = 8 then [92, 98]
      else if c = 12 then [92, 102]
      else if c < 32 then [92, 117, 48, 48, hexdigit (c div 16), hexdigit (c mod 16)]
      else [c])"

definition encode_basestring :: "str \<Rightarrow> str" where
  "encode_basestring s = [34] @ concat (map escape_char s) @ [34]"

definition str_of_int :: "int \<Rightarrow> str" where
  "str_of_int i = (if i < 0 then 45 # str_of_nat (nat (- i)) else str_of_nat (nat i))"

definition newline_indent :: "nat \<Rightarrow> str" where
  "newline_indent level = 10 # replicate (2 * level) 32"

text \<open>
  The encoder at a nesting level: an empty list is \<^verbatim>\<open>[]\<close> and an empty dictionary
  \<^verbatim>\<open>{}\<close>; otherwise every item stands on a line of its own, indented by two spaces
  for each level, items separated by a comma, a key and its value by a colon and a space.
\<close>

fun encode :: "nat \<Rightarrow> json \<Rightarrow> str"
  and encode_items :: "nat \<Rightarrow> json list \<Rightarrow> str"
  and encode_members :: "nat \<Rightarrow> (str \<times> json) list \<Rightarrow> str"
where
  "encode level JNull = lit ''null''"
| "encode level (JBool b) = (if b then lit ''true'' else lit ''false'')"
| "encode level (JInt i) = str_of_int i"
| "encode level (JFloat x) = x"
| "encode level (JStr s) = encode_basestring s"
| "encode level (JArr xs) =
     (if xs = [] then lit ''[]''
      else [91] @ newline_indent (Suc level) @ encode_items (Suc level) xs @
           newline_indent level @ [93])"
| "encode level (JObj kvs) =
     (if kvs = [] then lit ''{}''
      else [123] @ newline_indent (Suc level) @ encode_members (Suc level) kvs @
           newline_indent level @ [125])"
| "encode_items level [] = []"
| "encode_items level (x # xs) =
     (if xs = [] then encode level x
      else encode level x @ [44] @ newline_indent level @ encode_items level xs)"
| "encode_members level [] = []"
| "encode_members level (kv # kvs) =
     (if kvs = [] then encode_basestring (fst kv) @ lit '': '' @ encode level (snd kv)
      else encode_basestring (fst kv) @ lit '': '' @ encode level (snd kv) @ [44] @
           newline_indent level @ encode_members level kvs)"

definition json_dumps :: "json \<Rightarrow> str" where
  "json_dumps v = encode 0 v"

subsection \<open>Reading: \<^verbatim>\<open>json.load(f)\<close>\<close>































section \<open>The world the program acts on\<close>

text \<open>
  The state the program changes: the text files it reads and writes (by path, the
  content as the decoded text), the lines of its log, and the chat requests issued to
  the model endpoint so far.
\<close>

datatype request =
    ExtractionRequest "str list"
  | GradingRequest str

text \<open>
  An extraction request is given by the image URLs that follow its fixed instruction,
  a grading request by its user message; the model names and the fixed texts are
  constants of the program and carry no information.
\<close>

record world =
  files :: "str \<rightharpoonup> str"
  log :: "str list"
  requests :: "request list"

definition log_event :: "str \<Rightarrow> str \<Rightarrow> str \<Rightarrow> world \<Rightarrow> world" where
  "log_event event_type status details w =
     w\<lparr>log := log w @ [lit ''['' @ event_type @ lit ''] '' @ status @ lit '' | '' @ details]\<rparr>"

text \<open>
  A chunk of a streamed response is given by the \<^verbatim>\<open>delta.content\<close> of each of
  its choices (\<open>None\<close> when the field is absent). A streamed response is the chunks
  it delivers and then either its end or the exception that breaks it off.
\<close>

datatype chunk = Chunk (choices: "str option list")

type_synonym response = "chunk list \<times> error option"

text \<open>
  What lies outside the program: the uploaded files, the answer of the model endpoint
  to a request (\<^verbatim>\<open>client.chat.completions.create\<close>, which may raise), the absolute
  path \<^verbatim>\<open>Path(d).resolve()\<close> of a directory, and the three readings of the clock,
  formatted as the program formats them.
\<close>

record env =
  up :: uploads
  create :: "request \<Rightarrow> error + response"
  resolve :: "str \<Rightarrow> str"
  stamp_text :: str
  stamp_rate :: str
  stamp_entry :: str

section \<open>History\<close>

text \<open>
  An entry of the history, and the dictionary that the program makes of it.
\<close>

record history_entry =
  entry_title :: str
  entry_timestamp :: str
  entry_text_path :: str
  entry_rate_path :: str

definition entry_json :: "history_entry \<Rightarrow> json" where
  "entry_json h =
     JObj [(lit ''title'', JStr (entry_title h)),
           (lit ''timestamp'', JStr (entry_timestamp h)),
           (lit ''text_path'', JStr (entry_text_path h)),
           (lit ''rate_path'', JStr (entry_rate_path h))]"




definition save_history :: "json list \<Rightarrow> world \<Rightarrow> world" where
  "save_history history w = w\<lparr>files := (files w)(HISTORY_PATH \<mapsto> json_dumps (JArr history))\<rparr>"

section \<open>Saving a text\<close>

definition safe_save :: "env \<Rightarrow> str \<Rightarrow> str \<Rightarrow> str \<Rightarrow> str \<Rightarrow> world \<Rightarrow> str \<times> world" where
  "safe_save e content directory filename timestamp w =
     (let safe_dir = resolve e directory;
          safe_name = sanitize_filename filename;
          save_path = safe_dir @ lit ''/'' @ safe_name @ lit ''_'' @ timestamp @ lit ''.txt''
      in (save_path, w\<lparr>files := (files w)(save_path \<mapsto> content)\<rparr>))"

section \<open>Reading an image\<close>

definition b64char :: "nat \<Rightarrow> nat" where
  "b64char i =
     (if i < 26 then 65 + i
      else if i < 52 then 71 + i
      else if i < 62 then i - 4
      else if i = 62 then 43
      else 47)"

fun b64encode :: "nat list \<Rightarrow> str" where
  "b64encode [] = []"
| "b64encode [a] = [b64char (a div 4), b64char ((a mod 4) * 16), 61, 61]"
| "b64encode [a, b] =
     [b64char (a div 4), b64char ((a mod 4) * 16 + b div 16), b64char ((b mod 16) * 4), 61]"
| "b64encode (a # b # c # rest) =
     [b64char (a div 4), b64char ((a mod 4) * 16 + b div 16),
      b64char ((b mod 16) * 4 + c div 64), b64char (c mod 64)] @ b64encode rest"

definition encode_failed_msg :: str where
  "encode_failed_msg = [22270, 29255, 32534, 30721, 22833, 36133]"

definition encode_image_to_base64 :: "env \<Rightarrow> str \<Rightarrow> world \<Rightarrow> (error + str) \<times> world" where
  "encode_image_to_base64 e image_path w =
     (case read_bytes (up e) image_path of
        Inl err \<Rightarrow> (Inl err, log_event (lit ''ERROR'') encode_failed_msg (message err) w)
      | Inr bytes \<Rightarrow> (Inr (b64encode bytes), w))"

section \<open>The two streamed calls\<close>

text \<open>
  The loop shared by both generators: a chunk whose first choice has a content that is
  neither absent nor empty extends the running text, and the running text is yielded.
  The result is the list of the values yielded and how the generator ends: with the
  full text, or with the exception that the stream, or a chunk without choices, raises.
\<close>

fun stream_loop :: "str \<Rightarrow> chunk list \<Rightarrow> error option \<Rightarrow> str list \<times> (error + str)" where
  "stream_loop full [] fin =
     ([], case fin of None \<Rightarrow> Inr full | Some err \<Rightarrow> Inl err)"
| "stream_loop full (c # cs) fin =
     (case choices c of
        [] \<Rightarrow> ([], Inl (IndexError (lit ''list index out of range'')))
      | d # _ \<Rightarrow>
          (case d of
             None \<Rightarrow> stream_loop full cs fin
           | Some chunk_text \<Rightarrow>
               if chunk_text = [] then stream_loop full cs fin
               else (case stream_loop (full @ chunk_text) cs fin of
                       (ys, r) \<Rightarrow> ((full @ chunk_text) # ys, r))))"

fun encode_images :: "env \<Rightarrow> str list \<Rightarrow> world \<Rightarrow> (error + str list) \<times> world" where
  "encode_images e [] w = (Inr [], w)"
| "encode_images e (path # paths) w =
     (case encode_image_to_base64 e path w of
        (Inl err, w1) \<Rightarrow> (Inl err, w1)
      | (Inr base64_image, w1) \<Rightarrow>
          (case encode_images e paths w1 of
             (Inl err, w2) \<Rightarrow> (Inl err, w2)
           | (Inr urls, w2) \<Rightarrow>
               (Inr ((lit ''data:image/jpeg;base64,'' @ base64_image) # urls), w2)))"

definition stream_extract_text :: "env \<Rightarrow> str list \<Rightarrow> world \<Rightarrow> str list \<times> (error + str) \<times> world" where
  "stream_extract_text e image_paths w =
     (case encode_images e image_paths w of
        (Inl err, w1) \<Rightarrow> ([], Inl err, w1)
      | (Inr urls, w1) \<Rightarrow>
          (let req = ExtractionRequest urls;
               w2 = w1\<lparr>requests := requests w1 @ [req]\<rparr>
           in case create e req of
                Inl err \<Rightarrow> ([], Inl err, w2)
              | Inr (chunks, fin) \<Rightarrow>
                  (case stream_loop [] chunks fin of (ys, r) \<Rightarrow> (ys, r, w2))))"

definition template_missing_msg :: str where
  "template_missing_msg = [35780, 20998, 27169, 26495, 25991, 20214, 19981, 23384, 22312]"

definition rate_failed_msg :: str where
  "rate_failed_msg = [35780, 20998, 22833, 36133]"

definition essay_follows :: str where
  "essay_follows = [10, 20316, 25991, 20869, 23481, 22914, 19979, 65306]"

text \<open>The body of the \<^verbatim>\<open>try\<close> of \<^verbatim>\<open>stream_rate_text\<close>.\<close>

definition rate_body :: "env \<Rightarrow> str \<Rightarrow> world \<Rightarrow> str list \<times> (error + str) \<times> world" where
  "rate_body e content w =
     (case files w PROMPT_PATH of
        None \<Rightarrow> ([], Inl (FileNotFoundError template_missing_msg), w)
      | Some prompt_template \<Rightarrow>
          (let req = GradingRequest (prompt_template @ essay_follows @ content);
               w1 = w\<lparr>requests := requests w @ [req]\<rparr>
           in case create e req of
                Inl err \<Rightarrow> ([], Inl err, w1)
              | Inr (chunks, fin) \<Rightarrow>
                  (case stream_loop [] chunks fin of (ys, r) \<Rightarrow> (ys, r, w1))))"

text \<open>The \<^verbatim>\<open>except\<close> clause logs the exception and raises it again.\<close>

definition stream_rate_text :: "env \<Rightarrow> str \<Rightarrow> world \<Rightarrow> str list \<times> (error + str) \<times> world" where
  "stream_rate_text e content w =
     (case rate_body e content w of
        (ys, Inl err, w1) \<Rightarrow>
          (ys, Inl err, log_event (lit ''ERROR'') rate_failed_msg (message err) w1)
      | (ys, Inr full_response, w1) \<Rightarrow> (ys, Inr full_response, w1))"

section \<open>The pipeline\<close>

text \<open>
  The values \<^verbatim>\<open>full_process\<close> yields, one constructor for each of its
  \<^verbatim>\<open>yield\<close> statements: the files in the gallery; the text extracted so far; the
  grading panel; the two paths and the updated history; the status line of a failure.
\<close>

datatype snapshot =
    Processing "str list"
  | ExtractingText str
  | GradingText str
  | Done str str "json list"
  | Failed str

definition untitled :: str where
  "untitled = [26410, 21629, 21517, 20316, 25991]"

definition rate_suffix :: str where
  "rate_suffix = [95, 25209, 25913]"

definition result_header :: str where
  "result_header = [35, 35, 32, 25209, 25913, 32467, 26524, 10]"

definition error_prefix :: str where
  "error_prefix = [42, 42, 38169, 35823, 42, 42, 58, 32]"

text \<open>
  The title and the body of an extracted text:
  \<^verbatim>\<open>lines = full_text.split("\n", 1)\<close>,
  \<^verbatim>\<open>title = lines[0].strip() or "..."\<close>,
  \<^verbatim>\<open>content = lines[1].strip() if len(lines) > 1 else ""\<close>.
\<close>

definition title_of :: "str \<Rightarrow> str" where
  "title_of full_text =
     (case split1 full_text of
        [] \<Rightarrow> untitled
      | first # _ \<Rightarrow> if strip first = [] then untitled else strip first)"

definition content_of :: "str \<Rightarrow> str" where
  "content_of full_text =
     (case split1 full_text of
        _ # second # _ \<Rightarrow> strip second
      | _ \<Rightarrow> [])"

definition last_or_empty :: "str list \<Rightarrow> str" where
  "last_or_empty ys = (if ys = [] then [] else last ys)"

text \<open>The steps after the grading: both files, the new entry, the history file.\<close>

definition persist :: "env \<Rightarrow> str \<Rightarrow> str \<Rightarrow> str \<Rightarrow> json list \<Rightarrow> world \<Rightarrow> snapshot \<times> world" where
  "persist e title content full_rate history w =
     (case safe_save e content TEXTS_DIR title (stamp_text e) w of
        (text_path, w1) \<Rightarrow>
          (case safe_save e full_rate RATES_DIR (title @ rate_suffix) (stamp_rate e) w1 of
             (rate_path, w2) \<Rightarrow>
               (let new_entry = entry_json \<lparr>entry_title = title,
                                                 entry_timestamp = stamp_entry e,
                                                 entry_text_path = text_path,
                                                 entry_rate_path = rate_path\<rparr>;
                    updated_history = history @ [new_entry]
                in (Done text_path rate_path updated_history,
                    save_history updated_history w2))))"

definition full_process :: "env \<Rightarrow> str list \<Rightarrow> json list \<Rightarrow> world \<Rightarrow> snapshot list \<times> world" where
  "full_process e files_in history w =
     (case validate_image_files (up e) files_in of
        Inl err \<Rightarrow> ([Failed (error_prefix @ message err)], w)
      | Inr _ \<Rightarrow>
          (case stream_extract_text e files_in w of
             (ys, Inl err, w1) \<Rightarrow>
               (Processing files_in # map ExtractingText ys @
                  [Failed (error_prefix @ message err)], w1)
           | (ys, Inr _, w1) \<Rightarrow>
               (let full_text = last_or_empty ys;
                    title = title_of full_text;
                    content = content_of full_text
                in case stream_rate_text e content w1 of
                     (zs, Inl err, w2) \<Rightarrow>
                       (Processing files_in # map ExtractingText ys @
                          map (\<lambda>z. GradingText (result_header @ z)) zs @
                          [Failed (error_prefix @ message err)], w2)
                   | (zs, Inr _, w2) \<Rightarrow>
                       (case persist e title content (last_or_empty zs) history w2 of
                          (done, w3) \<Rightarrow>
                            (Processing files_in # map ExtractingText ys @
                               map (\<lambda>z. GradingText (result_header @ z)) zs @ [done],
                             w3)))))"

section \<open>Dictionaries of strings\<close>


section \<open>Files that pass the validation\<close>

text \<open>
  A file passes when it exists, the lower-cased suffix of its path is one of the allowed
  extensions, and its size is at most the ceiling of 5 MB.
\<close>

definition acceptable :: "uploads \<Rightarrow> str \<Rightarrow> bool" where
  "acceptable u p \<longleftrightarrow>
     path_exists u p \<and> lower (path_suffix p) \<in> set ALLOWED_EXTENSIONS \<and>
     st_size u p \<le> 5 * 1024 * 1024"

section \<open>The content deltas of a stream\<close>

text \<open>
  The content deltas a generator receives from the chunks of a stream: the contents of
  the first choices that are neither absent nor empty, up to the first chunk without
  choices, where the generator stops.
\<close>

fun deltas :: "chunk list \<Rightarrow> str list" where
  "deltas [] = []"
| "deltas (c # cs) =
     (case choices c of
        [] \<Rightarrow> []
      | d # _ \<Rightarrow>
          (case d of
             None \<Rightarrow> deltas cs
           | Some chunk_text \<Rightarrow> if chunk_text = [] then deltas cs else chunk_text # deltas cs))"

section \<open>An example run\<close>

text \<open>
  One uploaded page of 2 KB, an extraction that streams a title and a line of body, a
  grading that streams two pieces; next to it files of other types and an oversized one.
\<close>

definition demo_uploads :: uploads where
  "demo_uploads =
     \<lparr>path_exists = (\<lambda>p. p \<in> set [lit ''a.jpg'', lit ''P.JPG'', lit ''b.gif'', lit ''c.gif'', lit ''big.png'']),
      st_size = (\<lambda>p. if p = lit ''big.png'' then 6000000 else 2048),
      read_bytes = (\<lambda>p. Inr [1, 2, 3])\<rparr>"

definition demo_extraction :: response where
  "demo_extraction =
     ([Chunk [Some (lit ''Essay A'')], Chunk [None], Chunk [Some []],
       Chunk [Some (10 # lit ''I went to school.'')]], None)"

definition demo_grading :: response where
  "demo_grading = ([Chunk [Some (lit ''Good.'')], Chunk [Some (lit '' Solid structure.'')]], None)"

definition demo_env :: env where
  "demo_env =
     \<lparr>up = demo_uploads,
      create = (\<lambda>req. case req of
                  ExtractionRequest _ \<Rightarrow> Inr demo_extraction
                | GradingRequest _ \<Rightarrow> Inr demo_grading),
      resolve = (\<lambda>d. lit ''/app/'' @ d),
      stamp_text = lit ''20250101_120000'',
      stamp_rate = lit ''20250101_120001'',
      stamp_entry = lit ''2025-01-01 12:00''\<rparr>"

definition world0 :: world where
  "world0 = \<lparr>files = [PROMPT_PATH \<mapsto> lit ''Grade this essay.''], log = [], requests = []\<rparr>"

text \<open>The same run with a grading stream that breaks off after its first chunk.\<close>

definition broken_grading :: response where
  "broken_grading = ([Chunk [Some (lit ''Good.'')]], Some (APIError (lit ''connection lost'')))"

definition broken_env :: env where
  "broken_env =
     demo_env\<lparr>create := (\<lambda>req. case req of
                  ExtractionRequest _ \<Rightarrow> Inr demo_extraction
                | GradingRequest _ \<Rightarrow> Inr broken_grading)\<rparr>"

section \<open>Properties of the file-name sanitizer\<close>

text \<open>
  C5. For every title, the sanitized file name contains none of the characters
  backslash (92), slash (47), asterisk (42), question mark (63), colon (58), double
  quote (34), less-than (60), greater-than (62) and bar (124), and its length is at
  most 50.
\<close>

theorem sanitize_filename_safe:
  "set (sanitize_filename title) \<inter> {92, 47, 42, 63, 58, 34, 60, 62, 124} = {} \<and>
   length (sanitize_filename title) \<le> 50"
proof
  have "set (sanitize_filename title) \<subseteq> {c. c \<notin> set forbidden}"
    unfolding sanitize_filename_def Let_def
    using set_take_subset [of 50 "filter (\<lambda>c. c \<notin> set forbidden) (strip title)"]
    by auto
  then show "set (sanitize_filename title) \<inter> {92, 47, 42, 63, 58, 34, 60, 62, 124} = {}"
    by (auto simp: forbidden_def)
next
  show "length (sanitize_filename title) \<le> 50"
    by (simp add: sanitize_filename_def)
qed

section \<open>The cumulative-yield contract\<close>

lemma deltas_nonempty: "[] \<notin> set (deltas cs)"
  by (induction cs) (auto split: list.splits option.splits)

lemma stream_loop_yields:
  "fst (stream_loop full cs fin) =
     map (\<lambda>n. full @ concat (take (Suc n) (deltas cs))) [0..<length (deltas cs)]"
proof (induction cs arbitrary: full)
  case Nil
  show ?case by simp
next
  case (Cons c cs)
  show ?case
  proof (cases "choices c")
    case Nil
    then show ?thesis by simp
  next
    case (Cons d ds)
    note ch = Cons
    show ?thesis
    proof (cases d)
      case None
      with ch Cons.IH show ?thesis by simp
    next
      case (Some t)
      show ?thesis
      proof (cases "t = []")
        case True
        with ch Some Cons.IH show ?thesis by simp
      next
        case False
        have "[0..<Suc (length (deltas cs))] = 0 # map Suc [0..<length (deltas cs)]"
          by (simp add: upt_conv_Cons map_Suc_upt del: upt_Suc)
        with False ch Some Cons.IH [of "full @ t"] show ?thesis
          by (simp add: split_beta del: upt_Suc)
      qed
    qed
  qed
qed

lemma stream_loop_returns:
  "snd (stream_loop full cs fin) = Inr v \<Longrightarrow> v = full @ concat (deltas cs)"
proof (induction cs arbitrary: full)
  case Nil
  then show ?case by (simp split: option.splits)
next
  case (Cons c cs)
  show ?case
  proof (cases "choices c")
    case Nil
    with Cons.prems show ?thesis by simp
  next
    case (Cons d ds)
    note ch = Cons
    show ?thesis
    proof (cases d)
      case None
      with ch Cons.prems Cons.IH [of full] show ?thesis by simp
    next
      case (Some t)
      show ?thesis
      proof (cases "t = []")
        case True
        with ch Some Cons.prems Cons.IH [of full] show ?thesis by simp
      next
        case False
        with ch Some Cons.prems have "snd (stream_loop (full @ t) cs fin) = Inr v"
          by (simp add: split_beta)
        from Cons.IH [OF this] False ch Some show ?thesis by simp
      qed
    qed
  qed
qed

lemma concat_nonempty: "xs \<noteq> [] \<Longrightarrow> [] \<notin> set xs \<Longrightarrow> concat xs \<noteq> []"
  by (cases xs) auto

lemma take_split:
  assumes "i < j"
  shows "concat (take (Suc j) ds) = concat (take (Suc i) ds) @ concat (drop (Suc i) (take (Suc j) ds))"
proof -
  have "take (Suc i) (take (Suc j) ds) = take (Suc i) ds"
    using assms by (simp add: min_def)
  then have "take (Suc j) ds = take (Suc i) ds @ drop (Suc i) (take (Suc j) ds)"
    by (metis append_take_drop_id)
  then show ?thesis by (metis concat_append)
qed

lemma growth:
  assumes "i < j" "j < length ds" "[] \<notin> set ds"
  shows "concat (drop (Suc i) (take (Suc j) ds)) \<noteq> []"
proof (rule concat_nonempty)
  show "drop (Suc i) (take (Suc j) ds) \<noteq> []" using assms by simp
  show "[] \<notin> set (drop (Suc i) (take (Suc j) ds))"
    using assms(3) by (meson in_set_dropD in_set_takeD)
qed


lemma running_totals:
  "length (map (\<lambda>n. concat (take (Suc n) ds)) [0..<length ds]) = length ds \<and>
   (\<forall>n<length ds. map (\<lambda>n. concat (take (Suc n) ds)) [0..<length ds] ! n = concat (take (Suc n) ds)) \<and>
   (ds \<noteq> [] \<longrightarrow> last (map (\<lambda>n. concat (take (Suc n) ds)) [0..<length ds]) = concat ds)"
  by (cases "length ds") (auto simp: last_map simp del: upt_Suc)

lemma extract_streams:
  assumes "encode_images e paths w = (Inr urls, w1)"
      and "create e (ExtractionRequest urls) = Inr (cs, fin)"
  shows "fst (stream_extract_text e paths w) = fst (stream_loop [] cs fin)"
    and "fst (snd (stream_extract_text e paths w)) = snd (stream_loop [] cs fin)"
  using assms by (simp_all add: stream_extract_text_def Let_def split_beta)

lemma rate_streams:
  assumes "files w PROMPT_PATH = Some tpl"
      and "create e (GradingRequest (tpl @ essay_follows @ content)) = Inr (cs, fin)"
  shows "fst (stream_rate_text e content w) = fst (stream_loop [] cs fin)"
    and "fst (snd (stream_rate_text e content w)) = snd (stream_loop [] cs fin)"
  using assms
  by (auto simp: stream_rate_text_def rate_body_def Let_def split_beta split: sum.splits)

text \<open>
  C1. For a streamed call, extraction or grading, whose stream brings the content
  deltas \<open>d1, ..., dk\<close>: the generator yields \<open>k\<close> values, the \<open>n\<close>-th value it yields
  is the concatenation \<open>d1 + ... + dn\<close>, the last value it yields is the concatenation
  of all deltas, and so is the value it returns when the stream ends.
\<close>

theorem cumulative_yield:
  "(encode_images e paths w = (Inr urls, w1) \<and>
    create e (ExtractionRequest urls) = Inr (cs, fin) \<longrightarrow>
      length (fst (stream_extract_text e paths w)) = length (deltas cs) \<and>
      (\<forall>n<length (deltas cs).
         fst (stream_extract_text e paths w) ! n = concat (take (Suc n) (deltas cs))) \<and>
      (deltas cs \<noteq> [] \<longrightarrow> last (fst (stream_extract_text e paths w)) = concat (deltas cs)) \<and>
      (\<forall>v. fst (snd (stream_extract_text e paths w)) = Inr v \<longrightarrow> v = concat (deltas cs))) \<and>
   (files w PROMPT_PATH = Some tpl \<and>
    create e (GradingRequest (tpl @ essay_follows @ content)) = Inr (cs', fin') \<longrightarrow>
      length (fst (stream_rate_text e content w)) = length (deltas cs') \<and>
      (\<forall>n<length (deltas cs').
         fst (stream_rate_text e content w) ! n = concat (take (Suc n) (deltas cs'))) \<and>
      (deltas cs' \<noteq> [] \<longrightarrow> last (fst (stream_rate_text e content w)) = concat (deltas cs')) \<and>
      (\<forall>v. fst (snd (stream_rate_text e content w)) = Inr v \<longrightarrow> v = concat (deltas cs')))"
proof (intro conjI impI)
  assume a: "encode_images e paths w = (Inr urls, w1) \<and>
    create e (ExtractionRequest urls) = Inr (cs, fin)"
  then have y: "fst (stream_extract_text e paths w) =
      map (\<lambda>n. concat (take (Suc n) (deltas cs))) [0..<length (deltas cs)]"
    using extract_streams(1) [of e paths w urls w1 cs fin] stream_loop_yields [of "[]" cs fin]
    by simp
  show "length (fst (stream_extract_text e paths w)) = length (deltas cs)"
    unfolding y using running_totals [of "deltas cs"] by blast
  show "\<forall>n<length (deltas cs).
         fst (stream_extract_text e paths w) ! n = concat (take (Suc n) (deltas cs))"
    unfolding y using running_totals [of "deltas cs"] by blast
  show "last (fst (stream_extract_text e paths w)) = concat (deltas cs)" if "deltas cs \<noteq> []"
    unfolding y using running_totals [of "deltas cs"] that by blast
  show "\<forall>v. fst (snd (stream_extract_text e paths w)) = Inr v \<longrightarrow> v = concat (deltas cs)"
    using a extract_streams(2) [of e paths w urls w1 cs fin]
      stream_loop_returns [of "[]" cs fin] by simp
next
  assume a: "files w PROMPT_PATH = Some tpl \<and>
    create e (GradingRequest (tpl @ essay_follows @ content)) = Inr (cs', fin')"
  then have y: "fst (stream_rate_text e content w) =
      map (\<lambda>n. concat (take (Suc n) (deltas cs'))) [0..<length (deltas cs')]"
    using rate_streams(1) [of w tpl e content cs' fin'] stream_loop_yields [of "[]" cs' fin']
    by simp
  show "length (fst (stream_rate_text e content w)) = length (deltas cs')"
    unfolding y using running_totals [of "deltas cs'"] by blast
  show "\<forall>n<length (deltas cs').
         fst (stream_rate_text e content w) ! n = concat (take (Suc n) (deltas cs'))"
    unfolding y using running_totals [of "deltas cs'"] by blast
  show "last (fst (stream_rate_text e content w)) = concat (deltas cs')" if "deltas cs' \<noteq> []"
    unfolding y using running_totals [of "deltas cs'"] that by blast
  show "\<forall>v. fst (snd (stream_rate_text e content w)) = Inr v \<longrightarrow> v = concat (deltas cs')"
    using a rate_streams(2) [of w tpl e content cs' fin']
      stream_loop_returns [of "[]" cs' fin'] by simp
qed


lemma demo_encode:
  "encode_images demo_env [lit ''a.jpg''] world0 = (Inr [lit ''data:image/jpeg;base64,AQID''], world0)"
  by (simp add: encode_image_to_base64_def demo_env_def demo_uploads_def b64char_def lit_def)

lemma demo_deltas:
  "deltas (fst demo_extraction) = [lit ''Essay A'', 10 # lit ''I went to school.'']"
  "deltas (fst demo_grading) = [lit ''Good.'', lit '' Solid structure.'']"
  by (simp_all add: demo_extraction_def demo_grading_def lit_def)

theorem cumulative_yield_witness:
  "encode_images demo_env [lit ''a.jpg''] world0 = (Inr [lit ''data:image/jpeg;base64,AQID''], world0) \<and>
   create demo_env (ExtractionRequest [lit ''data:image/jpeg;base64,AQID'']) = Inr demo_extraction \<and>
   fst (stream_extract_text demo_env [lit ''a.jpg''] world0) ! 1 =
     lit ''Essay A'' @ 10 # lit ''I went to school.'' \<and>
   last (fst (stream_extract_text demo_env [lit ''a.jpg''] world0)) =
     lit ''Essay A'' @ 10 # lit ''I went to school.'' \<and>
   files world0 PROMPT_PATH = Some (lit ''Grade this essay.'') \<and>
   create demo_env (GradingRequest (lit ''Grade this essay.'' @ essay_follows @ lit ''I went to school.''))
     = Inr demo_grading \<and>
   fst (stream_rate_text demo_env (lit ''I went to school.'') world0) ! 1 =
     lit ''Good.'' @ lit '' Solid structure.'' \<and>
   last (fst (stream_rate_text demo_env (lit ''I went to school.'') world0)) =
     lit ''Good.'' @ lit '' Solid structure.''"
proof -
  have c1: "create demo_env (ExtractionRequest [lit ''data:image/jpeg;base64,AQID''])
      = Inr (fst demo_extraction, snd demo_extraction)"
    by (simp add: demo_env_def)
  have f: "files world0 PROMPT_PATH = Some (lit ''Grade this essay.'')"
    by (simp add: world0_def)
  have c2: "create demo_env (GradingRequest (lit ''Grade this essay.'' @ essay_follows @ lit ''I went to school.''))
      = Inr (fst demo_grading, snd demo_grading)"
    by (simp add: demo_env_def)
  note t = cumulative_yield [of demo_env "[lit ''a.jpg'']" world0
      "[lit ''data:image/jpeg;base64,AQID'']" world0 "fst demo_extraction" "snd demo_extraction"
      "lit ''Grade this essay.''" "lit ''I went to school.''" "fst demo_grading" "snd demo_grading"]
  from t demo_encode c1 f c2 show ?thesis
    by (simp add: demo_deltas)
qed

section \<open>The yielded values grow strictly\<close>

lemma stream_loop_grows:
  assumes "i < j" "j < length (fst (stream_loop full cs fin))"
  shows "\<exists>t. t \<noteq> [] \<and> fst (stream_loop full cs fin) ! j = fst (stream_loop full cs fin) ! i @ t"
proof -
  let ?ds = "deltas cs"
  have len: "j < length ?ds" "i < length ?ds"
    using assms by (simp_all add: stream_loop_yields)
  have "fst (stream_loop full cs fin) ! j =
        fst (stream_loop full cs fin) ! i @ concat (drop (Suc i) (take (Suc j) ?ds))"
    using len take_split [OF assms(1), of ?ds] by (simp add: stream_loop_yields)
  moreover have "concat (drop (Suc i) (take (Suc j) ?ds)) \<noteq> []"
    using growth [OF assms(1) len(1) deltas_nonempty] .
  ultimately show ?thesis by blast
qed

lemma stream_loop_first:
  assumes "n < length (fst (stream_loop full cs fin))"
  shows "\<exists>t. t \<noteq> [] \<and> fst (stream_loop full cs fin) ! n = full @ t"
proof -
  have len: "n < length (deltas cs)" using assms by (simp add: stream_loop_yields)
  have "concat (take (Suc n) (deltas cs)) \<noteq> []"
  proof (rule concat_nonempty)
    show "take (Suc n) (deltas cs) \<noteq> []" using len by auto
    show "[] \<notin> set (take (Suc n) (deltas cs))"
      using deltas_nonempty by (meson in_set_takeD)
  qed
  then show ?thesis using len by (simp add: stream_loop_yields)
qed

lemma extract_is_loop:
  "\<exists>cs fin. fst (stream_extract_text e paths w) = fst (stream_loop [] cs fin)"
proof (cases "encode_images e paths w")
  case (Pair r w1)
  show ?thesis
  proof (cases r)
    case (Inl err)
    with Pair have "fst (stream_extract_text e paths w) = fst (stream_loop [] [] None)"
      by (simp add: stream_extract_text_def)
    then show ?thesis by blast
  next
    case (Inr urls)
    show ?thesis
    proof (cases "create e (ExtractionRequest urls)")
      case (Inl err)
      with Pair Inr have "fst (stream_extract_text e paths w) = fst (stream_loop [] [] None)"
        by (simp add: stream_extract_text_def)
      then show ?thesis by blast
    next
      case (Inr resp)
      with Pair \<open>r = Inr urls\<close>
      have "fst (stream_extract_text e paths w) = fst (stream_loop [] (fst resp) (snd resp))"
        by (simp add: stream_extract_text_def split_beta)
      then show ?thesis by blast
    qed
  qed
qed

lemma rate_is_loop:
  "\<exists>cs fin. fst (stream_rate_text e content w) = fst (stream_loop [] cs fin)"
proof -
  have eq: "fst (stream_rate_text e content w) = fst (rate_body e content w)"
    by (simp add: stream_rate_text_def split: prod.splits sum.splits)
  show ?thesis
  proof (cases "files w PROMPT_PATH")
    case None
    then have "fst (rate_body e content w) = fst (stream_loop [] [] None)"
      by (simp add: rate_body_def)
    with eq show ?thesis by metis
  next
    case (Some tpl)
    show ?thesis
    proof (cases "create e (GradingRequest (tpl @ essay_follows @ content))")
      case (Inl err)
      with Some have "fst (rate_body e content w) = fst (stream_loop [] [] None)"
        by (simp add: rate_body_def)
      with eq show ?thesis by metis
    next
      case (Inr resp)
      with Some have "fst (rate_body e content w) = fst (stream_loop [] (fst resp) (snd resp))"
        by (simp add: rate_body_def split_beta)
      with eq show ?thesis by metis
    qed
  qed
qed

text \<open>
  C10. For both generators, every value yielded is not empty, and every value yielded
  later is an earlier one followed by a string that is not empty: the values grow
  strictly, each a proper prefix of all that follow. A chunk whose content is absent or
  empty yields nothing.
\<close>

theorem yields_strictly_grow:
  "(\<forall>n<length (fst (stream_extract_text e paths w)).
      fst (stream_extract_text e paths w) ! n \<noteq> []) \<and>
   (\<forall>i j. i < j \<and> j < length (fst (stream_extract_text e paths w)) \<longrightarrow>
      (\<exists>t. t \<noteq> [] \<and>
         fst (stream_extract_text e paths w) ! j = fst (stream_extract_text e paths w) ! i @ t)) \<and>
   (\<forall>n<length (fst (stream_rate_text e content w)).
      fst (stream_rate_text e content w) ! n \<noteq> []) \<and>
   (\<forall>i j. i < j \<and> j < length (fst (stream_rate_text e content w)) \<longrightarrow>
      (\<exists>t. t \<noteq> [] \<and>
         fst (stream_rate_text e content w) ! j = fst (stream_rate_text e content w) ! i @ t)) \<and>
   stream_loop full (Chunk (None # ds) # cs) fin = stream_loop full cs fin \<and>
   stream_loop full (Chunk (Some [] # ds) # cs) fin = stream_loop full cs fin"
proof -
  obtain cs1 fin1 where x: "fst (stream_extract_text e paths w) = fst (stream_loop [] cs1 fin1)"
    using extract_is_loop by blast
  obtain cs2 fin2 where r: "fst (stream_rate_text e content w) = fst (stream_loop [] cs2 fin2)"
    using rate_is_loop by blast
  have "\<forall>n<length (fst (stream_loop [] cs fin)). fst (stream_loop [] cs fin) ! n \<noteq> []" for cs fin
    using stream_loop_first [of _ "[]" cs fin] by auto
  moreover have "\<forall>i j. i < j \<and> j < length (fst (stream_loop [] cs fin)) \<longrightarrow>
      (\<exists>t. t \<noteq> [] \<and> fst (stream_loop [] cs fin) ! j = fst (stream_loop [] cs fin) ! i @ t)" for cs fin
    using stream_loop_grows [of _ _ "[]" cs fin] by blast
  ultimately show ?thesis unfolding x r by simp
qed

lemma lit_nonempty [simp]: "lit (c # cs) \<noteq> []" "[] \<noteq> lit (c # cs)"
  by (simp_all add: lit_def)

lemma demo_create:
  "create demo_env (ExtractionRequest urls) = Inr demo_extraction"
  "create demo_env (GradingRequest msg) = Inr demo_grading"
  by (simp_all add: demo_env_def)

lemma demo_extract_run:
  "stream_extract_text demo_env [lit ''a.jpg''] world0 =
     ([lit ''Essay A'', lit ''Essay A'' @ 10 # lit ''I went to school.''],
      Inr (lit ''Essay A'' @ 10 # lit ''I went to school.''),
      world0\<lparr>requests := [ExtractionRequest [lit ''data:image/jpeg;base64,AQID'']]\<rparr>)"
  unfolding stream_extract_text_def demo_encode
  by (simp add: demo_create demo_extraction_def world0_def)

lemma demo_rate_run:
  "files w PROMPT_PATH = Some tpl \<Longrightarrow>
   stream_rate_text demo_env content w =
     ([lit ''Good.'', lit ''Good.'' @ lit '' Solid structure.''],
      Inr (lit ''Good.'' @ lit '' Solid structure.''),
      w\<lparr>requests := requests w @ [GradingRequest (tpl @ essay_follows @ content)]\<rparr>)"
  by (simp add: stream_rate_text_def rate_body_def demo_create demo_grading_def)

theorem yields_strictly_grow_witness:
  "fst (stream_extract_text demo_env [lit ''a.jpg''] world0) ! 0 = lit ''Essay A'' \<and>
   fst (stream_extract_text demo_env [lit ''a.jpg''] world0) ! 1 =
     lit ''Essay A'' @ 10 # lit ''I went to school.'' \<and>
   length (fst (stream_extract_text demo_env [lit ''a.jpg''] world0)) = 2 \<and>
   (\<exists>t. t \<noteq> [] \<and>
      fst (stream_extract_text demo_env [lit ''a.jpg''] world0) ! 1 =
      fst (stream_extract_text demo_env [lit ''a.jpg''] world0) ! 0 @ t)"
proof -
  have h: "(0::nat) < 1 \<and> 1 < length (fst (stream_extract_text demo_env [lit ''a.jpg''] world0))"
    by (simp add: demo_extract_run)
  note g = yields_strictly_grow [of demo_env "[lit ''a.jpg'']" world0, THEN conjunct2,
      THEN conjunct1, rule_format, of 0 1]
  from g [OF h] show ?thesis by (simp add: demo_extract_run)
qed

section \<open>Title and body of an extracted text\<close>

lemma split1_two: "10 \<notin> set a \<Longrightarrow> split1 (a @ 10 # b) = [a, b]"
proof -
  assume a: "10 \<notin> set a"
  then have "takeWhile (\<lambda>c. c \<noteq> 10) (a @ 10 # b) = a"
    by (auto simp: takeWhile_tail)
  moreover from a have "dropWhile (\<lambda>c. c \<noteq> 10) (a @ 10 # b) = 10 # b"
    by (auto simp: dropWhile_append3)
  ultimately show ?thesis by (simp add: split1_def)
qed

lemma split1_one: "10 \<notin> set t \<Longrightarrow> split1 t = [t]"
  by (simp add: split1_def)

text \<open>
  C2, as the code has it. The title is the first line of the extracted text, stripped of
  surrounding whitespace, and the placeholder of the source, the five characters
  U+672A U+547D U+540D U+4F5C U+6587, when the stripped line is empty; the body is what
  follows the first line feed, stripped, and the empty string when there is no line
  feed. The two examples of the specification come out as it says.
\<close>

theorem title_body_split:
  "(10 \<notin> set a \<longrightarrow>
      title_of (a @ 10 # b) = (if strip a = [] then untitled else strip a) \<and>
      content_of (a @ 10 # b) = strip b) \<and>
   (10 \<notin> set t \<longrightarrow>
      title_of t = (if strip t = [] then untitled else strip t) \<and> content_of t = []) \<and>
   title_of (lit ''My Title'' @ 10 # lit ''Line1'' @ 10 # lit ''Line2'') = lit ''My Title'' \<and>
   content_of (lit ''My Title'' @ 10 # lit ''Line1'' @ 10 # lit ''Line2'') =
     lit ''Line1'' @ 10 # lit ''Line2'' \<and>
   title_of (lit ''OnlyTitle'') = lit ''OnlyTitle'' \<and>
   content_of (lit ''OnlyTitle'') = []"
proof (intro conjI impI)
  show "title_of (lit ''My Title'' @ 10 # lit ''Line1'' @ 10 # lit ''Line2'') = lit ''My Title''"
    by (simp add: title_of_def split1_def strip_def lstrip_def rstrip_def isspace_def lit_def)
  show "content_of (lit ''My Title'' @ 10 # lit ''Line1'' @ 10 # lit ''Line2'') =
     lit ''Line1'' @ 10 # lit ''Line2''"
    by (simp add: content_of_def split1_def strip_def lstrip_def rstrip_def isspace_def lit_def)
  show "title_of (lit ''OnlyTitle'') = lit ''OnlyTitle''"
    by (simp add: title_of_def split1_def strip_def lstrip_def rstrip_def isspace_def lit_def)
  show "content_of (lit ''OnlyTitle'') = []"
    by (simp add: content_of_def split1_def lit_def)
qed (simp_all add: title_of_def content_of_def split1_two split1_one)

theorem title_body_split_witness:
  "10 \<notin> set (lit ''  Essay A '') \<and>
   title_of (lit ''  Essay A '' @ 10 # lit '' I went to school. '') = lit ''Essay A'' \<and>
   content_of (lit ''  Essay A '' @ 10 # lit '' I went to school. '') = lit ''I went to school.'' \<and>
   10 \<notin> set (lit ''   '') \<and> title_of (lit ''   '') = untitled \<and> content_of (lit ''   '') = []"
proof -
  have h1: "10 \<notin> set (lit ''  Essay A '')" by (simp add: lit_def)
  have h2: "10 \<notin> set (lit ''   '')" by (simp add: lit_def)
  have s1: "strip (lit ''  Essay A '') = lit ''Essay A''"
    by (simp add: strip_def lstrip_def rstrip_def isspace_def lit_def)
  have s2: "strip (lit '' I went to school. '') = lit ''I went to school.''"
    by (simp add: strip_def lstrip_def rstrip_def isspace_def lit_def)
  have s3: "strip (lit ''   '') = []"
    by (simp add: strip_def lstrip_def rstrip_def isspace_def lit_def)
  note t = title_body_split [of "lit ''  Essay A ''" "lit '' I went to school. ''" "lit ''   ''"]
  from t h1 h2 show ?thesis by (simp add: s1 s2 s3)
qed

text \<open>
  The placeholder is not the English word of the specification: the title of an empty
  extraction is the source's own literal.
\<close>

theorem untitled_counterexample:
  "title_of [] = [26410, 21629, 21517, 20316, 25991] \<and>
   title_of [] \<noteq> lit ''Untitled''"
  by (simp add: title_of_def split1_def strip_def lstrip_def rstrip_def untitled_def lit_def)

section \<open>Validation of the uploaded batch\<close>

lemma validate_loop_prefix:
  "\<forall>q\<in>set good. acceptable u q \<Longrightarrow> validate_loop u (good @ rest) = validate_loop u rest"
  by (induction good) (auto simp: acceptable_def MAX_FILE_SIZE_MB_def)

lemma validate_loop_fails:
  "(\<exists>err. validate_loop u batch = Inl err) \<longleftrightarrow> (\<exists>p\<in>set batch. \<not> acceptable u p)"
  by (induction batch) (auto simp: acceptable_def MAX_FILE_SIZE_MB_def)

lemma not_acceptable:
  "\<not> acceptable u p \<longleftrightarrow>
     \<not> path_exists u p \<or>
     lower (path_suffix p) \<notin> set [lit ''.jpg'', lit ''.jpeg'', lit ''.png''] \<or>
     5 * 1024 * 1024 < st_size u p"
  by (auto simp: acceptable_def ALLOWED_EXTENSIONS_def)

text \<open>
  C3, as the code has it. The validation fails exactly when the batch is empty, or some
  listed path does not exist, or has a suffix that, lower-cased, is none of
  \<^verbatim>\<open>.jpg\<close>, \<^verbatim>\<open>.jpeg\<close>, \<^verbatim>\<open>.png\<close>, or is larger than 5 MB. An empty batch fails
  with the message that no image was uploaded. Otherwise the first file of the batch
  that does not pass decides the failure, and the checks on it run in the order
  existence, suffix, size: the message of a missing file carries its path, the message
  of a wrong type carries the suffix only, and the message of an oversized file carries
  the file name and the size in whole megabytes.
\<close>

theorem validate_image_files_spec:
  "((\<exists>err. validate_image_files u batch = Inl err) \<longleftrightarrow>
      batch = [] \<or>
      (\<exists>p\<in>set batch. \<not> path_exists u p \<or>
                      lower (path_suffix p) \<notin> set [lit ''.jpg'', lit ''.jpeg'', lit ''.png''] \<or>
                      5 * 1024 * 1024 < st_size u p)) \<and>
   validate_image_files u [] = Inl (ValueError no_images_msg) \<and>
   ((\<forall>q\<in>set good. acceptable u q) \<and> \<not> acceptable u p \<longrightarrow>
      validate_image_files u (good @ p # rest) =
        Inl (ValueError
          (if \<not> path_exists u p then missing_msg @ p
           else if lower (path_suffix p) \<notin> set [lit ''.jpg'', lit ''.jpeg'', lit ''.png'']
             then unsupported_msg @ path_suffix p
           else too_large_msg @ path_name p @ lit '' ('' @
                  str_of_nat (st_size u p div 1024 div 1024) @ lit ''MB)'')))"
proof (intro conjI impI)
  show "(\<exists>err. validate_image_files u batch = Inl err) \<longleftrightarrow>
      batch = [] \<or>
      (\<exists>p\<in>set batch. \<not> path_exists u p \<or>
                      lower (path_suffix p) \<notin> set [lit ''.jpg'', lit ''.jpeg'', lit ''.png''] \<or>
                      5 * 1024 * 1024 < st_size u p)"
    unfolding not_acceptable [symmetric] validate_image_files_def
    using validate_loop_fails [of u batch] by auto
  show "validate_image_files u [] = Inl (ValueError no_images_msg)"
    by (simp add: validate_image_files_def)
next
  assume a: "(\<forall>q\<in>set good. acceptable u q) \<and> \<not> acceptable u p"
  then have "validate_image_files u (good @ p # rest) = validate_loop u (p # rest)"
    by (simp add: validate_image_files_def validate_loop_prefix)
  with a show "validate_image_files u (good @ p # rest) =
        Inl (ValueError
          (if \<not> path_exists u p then missing_msg @ p
           else if lower (path_suffix p) \<notin> set [lit ''.jpg'', lit ''.jpeg'', lit ''.png'']
             then unsupported_msg @ path_suffix p
           else too_large_msg @ path_name p @ lit '' ('' @
                  str_of_nat (st_size u p div 1024 div 1024) @ lit ''MB)''))"
    by (auto simp: not_acceptable acceptable_def MAX_FILE_SIZE_MB_def ALLOWED_EXTENSIONS_def)
qed

lemma demo_suffixes:
  "path_suffix (lit ''a.jpg'') = lit ''.jpg''"
  "path_suffix (lit ''P.JPG'') = lit ''.JPG''"
  "path_suffix (lit ''b.gif'') = lit ''.gif''"
  "path_suffix (lit ''c.gif'') = lit ''.gif''"
  "path_suffix (lit ''big.png'') = lit ''.png''"
  "path_name (lit ''big.png'') = lit ''big.png''"
  by (simp_all add: path_suffix_def path_name_def lit_def)

lemma demo_acceptable:
  "acceptable demo_uploads (lit ''a.jpg'')"
  "acceptable demo_uploads (lit ''P.JPG'')"
  "\<not> acceptable demo_uploads (lit ''big.png'')"
  "\<not> acceptable demo_uploads (lit ''b.gif'')"
  "\<not> acceptable demo_uploads (lit ''c.gif'')"
  "\<not> acceptable demo_uploads (lit ''gone.png'')"
  by (simp_all add: acceptable_def demo_suffixes)
     (simp_all add: demo_uploads_def ALLOWED_EXTENSIONS_def lower_def lit_def)

lemma five: "str_of_nat 5 = [53]"
  by (simp add: str_of_nat.simps)

lemma demo_files:
  "path_exists demo_uploads (lit ''a.jpg'')"
  "path_exists demo_uploads (lit ''P.JPG'')"
  "path_exists demo_uploads (lit ''b.gif'')"
  "path_exists demo_uploads (lit ''c.gif'')"
  "path_exists demo_uploads (lit ''big.png'')"
  "\<not> path_exists demo_uploads (lit ''gone.png'')"
  "st_size demo_uploads (lit ''a.jpg'') = 2048"
  "st_size demo_uploads (lit ''P.JPG'') = 2048"
  "st_size demo_uploads (lit ''big.png'') = 6000000"
  "lower (lit ''.jpg'') \<in> set ALLOWED_EXTENSIONS"
  "lower (lit ''.JPG'') \<in> set ALLOWED_EXTENSIONS"
  "lower (lit ''.png'') \<in> set ALLOWED_EXTENSIONS"
  "lower (lit ''.gif'') \<notin> set ALLOWED_EXTENSIONS"
  by (simp_all add: demo_uploads_def ALLOWED_EXTENSIONS_def lower_def lit_def)

lemma lit_append: "lit (a @ b) = lit a @ lit b"
  by (simp add: lit_def)

lemma demo_validate:
  "validate_image_files demo_uploads [lit ''a.jpg'', lit ''P.JPG'', lit ''big.png'', lit ''b.gif'']
     = Inl (ValueError (too_large_msg @ lit ''big.png'' @ lit '' ('' @ [53] @ lit ''MB)''))"
  "validate_image_files demo_uploads [lit ''a.jpg'', lit ''gone.png'']
     = Inl (ValueError (missing_msg @ lit ''gone.png''))"
  "validate_image_files demo_uploads [lit ''a.jpg'', lit ''P.JPG''] = Inr ()"
  "validate_image_files demo_uploads [lit ''a.jpg''] = Inr ()"
  "validate_image_files demo_uploads [lit ''b.gif''] = Inl (ValueError (unsupported_msg @ lit ''.gif''))"
  "validate_image_files demo_uploads [lit ''c.gif''] = Inl (ValueError (unsupported_msg @ lit ''.gif''))"
  by (simp_all add: validate_image_files_def demo_suffixes demo_files MAX_FILE_SIZE_MB_def five)

theorem validate_image_files_spec_witness:
  "validate_image_files demo_uploads [lit ''a.jpg'', lit ''P.JPG'', lit ''big.png'', lit ''b.gif'']
     = Inl (ValueError (too_large_msg @ lit ''big.png'' @ lit '' ('' @ [53] @ lit ''MB)'')) \<and>
   validate_image_files demo_uploads [lit ''a.jpg'', lit ''gone.png'']
     = Inl (ValueError (missing_msg @ lit ''gone.png'')) \<and>
   validate_image_files demo_uploads [lit ''a.jpg'', lit ''P.JPG''] = Inr () \<and>
   acceptable demo_uploads (lit ''a.jpg'') \<and> acceptable demo_uploads (lit ''P.JPG'') \<and>
   \<not> acceptable demo_uploads (lit ''big.png'') \<and> \<not> acceptable demo_uploads (lit ''gone.png'')"
proof -
  note t = validate_image_files_spec [of demo_uploads "[lit ''a.jpg'', lit ''P.JPG'']"
      "[lit ''a.jpg'', lit ''P.JPG'']" "lit ''big.png''" "[lit ''b.gif'']"]
  from t show ?thesis
    by (simp add: demo_validate demo_acceptable)
qed

text \<open>
  The message of a wrong file type does not say which file it is about: two batches
  with different files of the same suffix fail with the same exception.
\<close>

theorem validate_message_counterexample:
  "validate_image_files demo_uploads [lit ''b.gif''] = Inl (ValueError (unsupported_msg @ lit ''.gif'')) \<and>
   validate_image_files demo_uploads [lit ''c.gif''] = Inl (ValueError (unsupported_msg @ lit ''.gif'')) \<and>
   lit ''b.gif'' \<noteq> lit ''c.gif''"
  by (simp add: demo_validate) (simp add: lit_def)

section \<open>What the pipeline leaves untouched\<close>

lemma log_event_keeps [simp]:
  "files (log_event a b c w) = files w" "requests (log_event a b c w) = requests w"
  by (simp_all add: log_event_def)

lemma encode_images_keeps:
  "files (snd (encode_images e paths w)) = files w \<and>
   requests (snd (encode_images e paths w)) = requests w"
proof (induction paths arbitrary: w)
  case Nil
  show ?case by simp
next
  case (Cons p ps)
  show ?case
  proof (cases "read_bytes (up e) p")
    case (Inl err)
    then show ?thesis by (simp add: encode_image_to_base64_def)
  next
    case (Inr bytes)
    with Cons.IH [of w] show ?thesis
      by (auto simp: encode_image_to_base64_def split: prod.splits sum.splits)
  qed
qed

lemma extract_keeps_files:
  "files (snd (snd (stream_extract_text e paths w))) = files w"
  using encode_images_keeps [of e paths w]
  by (auto simp: stream_extract_text_def Let_def split: prod.splits sum.splits)

lemma rate_keeps_files:
  "files (snd (snd (stream_rate_text e content w))) = files w"
  by (auto simp: stream_rate_text_def rate_body_def Let_def split: prod.splits sum.splits option.splits)

lemma demo_ups [simp]: "up demo_env = demo_uploads" "up broken_env = demo_uploads"
  by (simp_all add: demo_env_def broken_env_def)

lemma broken_create:
  "create broken_env (ExtractionRequest urls) = Inr demo_extraction"
  "create broken_env (GradingRequest msg) = Inr broken_grading"
  by (simp_all add: broken_env_def)

lemma encode_demo:
  "up e = demo_uploads \<Longrightarrow>
   encode_images e [lit ''a.jpg''] w = (Inr [lit ''data:image/jpeg;base64,AQID''], w)"
  by (simp add: encode_image_to_base64_def demo_uploads_def b64char_def lit_def)

lemma extract_demo:
  assumes "up e = demo_uploads"
      and "create e (ExtractionRequest [lit ''data:image/jpeg;base64,AQID'']) = Inr demo_extraction"
  shows "stream_extract_text e [lit ''a.jpg''] w =
     ([lit ''Essay A'', lit ''Essay A'' @ 10 # lit ''I went to school.''],
      Inr (lit ''Essay A'' @ 10 # lit ''I went to school.''),
      w\<lparr>requests := requests w @ [ExtractionRequest [lit ''data:image/jpeg;base64,AQID'']]\<rparr>)"
  unfolding stream_extract_text_def encode_demo [OF assms(1)]
  by (simp add: assms(2) demo_extraction_def)

lemma demo_split:
  "title_of (lit ''Essay A'' @ 10 # lit ''I went to school.'') = lit ''Essay A''"
  "content_of (lit ''Essay A'' @ 10 # lit ''I went to school.'') = lit ''I went to school.''"
proof -
  have n: "10 \<notin> set (lit ''Essay A'')" by (simp add: lit_def)
  have s1: "strip (lit ''Essay A'') = lit ''Essay A''"
    by (simp add: strip_def lstrip_def rstrip_def isspace_def lit_def)
  have s2: "strip (lit ''I went to school.'') = lit ''I went to school.''"
    by (simp add: strip_def lstrip_def rstrip_def isspace_def lit_def)
  show "title_of (lit ''Essay A'' @ 10 # lit ''I went to school.'') = lit ''Essay A''"
    by (simp add: title_of_def split1_two [OF n] s1)
  show "content_of (lit ''Essay A'' @ 10 # lit ''I went to school.'') = lit ''I went to school.''"
    by (simp add: content_of_def split1_two [OF n] s2)
qed

lemma broken_rate_run:
  "files w PROMPT_PATH = Some tpl \<Longrightarrow>
   stream_rate_text broken_env content w =
     ([lit ''Good.''], Inl (APIError (lit ''connection lost'')),
      log_event (lit ''ERROR'') rate_failed_msg (lit ''connection lost'')
        (w\<lparr>requests := requests w @ [GradingRequest (tpl @ essay_follows @ content)]\<rparr>))"
  by (simp add: stream_rate_text_def rate_body_def broken_create broken_grading_def)

text \<open>
  C7. When the validation fails, the pipeline yields the failure and nothing else and
  leaves the world as it was: no request to the model endpoint is built or issued. Put
  the other way round, a run that issues a request has passed the validation.
\<close>

theorem no_request_when_validation_fails:
  "(validate_image_files (up e) batch = Inl err \<longrightarrow>
      full_process e batch history w = ([Failed (error_prefix @ message err)], w) \<and>
      requests (snd (full_process e batch history w)) = requests w) \<and>
   (requests (snd (full_process e batch history w)) \<noteq> requests w \<longrightarrow>
      validate_image_files (up e) batch = Inr ())"
proof (intro conjI impI)
  assume "validate_image_files (up e) batch = Inl err"
  then show "full_process e batch history w = ([Failed (error_prefix @ message err)], w)"
    by (simp add: full_process_def)
  then show "requests (snd (full_process e batch history w)) = requests w" by simp
next
  assume a: "requests (snd (full_process e batch history w)) \<noteq> requests w"
  show "validate_image_files (up e) batch = Inr ()"
  proof (cases "validate_image_files (up e) batch")
    case (Inl err)
    then have "full_process e batch history w = ([Failed (error_prefix @ message err)], w)"
      by (simp add: full_process_def)
    with a show ?thesis by simp
  next
    case (Inr u)
    then show ?thesis by simp
  qed
qed

theorem no_request_when_validation_fails_witness:
  "validate_image_files (up demo_env) [] = Inl (ValueError no_images_msg) \<and>
   full_process demo_env [] [] world0 = ([Failed (error_prefix @ no_images_msg)], world0) \<and>
   requests (snd (full_process demo_env [] [] world0)) = [] \<and>
   validate_image_files (up demo_env) [lit ''a.jpg'', lit ''b.gif''] =
     Inl (ValueError (unsupported_msg @ lit ''.gif'')) \<and>
   full_process demo_env [lit ''a.jpg'', lit ''b.gif''] [] world0 =
     ([Failed (error_prefix @ unsupported_msg @ lit ''.gif'')], world0)"
proof -
  have v1: "validate_image_files (up demo_env) [] = Inl (ValueError no_images_msg)"
    by (simp add: validate_image_files_def)
  have v2: "validate_image_files (up demo_env) [lit ''a.jpg'', lit ''b.gif''] =
     Inl (ValueError (unsupported_msg @ lit ''.gif''))"
    by (simp add: validate_image_files_def demo_suffixes demo_files MAX_FILE_SIZE_MB_def)
  note c1 = no_request_when_validation_fails [of demo_env "[]" "ValueError no_images_msg" "[]" world0,
      THEN conjunct1, rule_format, OF v1]
  note c2 = no_request_when_validation_fails [of demo_env "[lit ''a.jpg'', lit ''b.gif'']"
      "ValueError (unsupported_msg @ lit ''.gif'')" "[]" world0, THEN conjunct1, rule_format, OF v2]
  have r0: "requests world0 = []" by (simp add: world0_def)
  have m: "message (ValueError no_images_msg) = no_images_msg"
     "message (ValueError (unsupported_msg @ lit ''.gif'')) = unsupported_msg @ lit ''.gif''"
    by simp_all
  show ?thesis
    using v1 v2 c1 c2 unfolding m r0 by blast
qed

text \<open>
  C4. When the grading call fails, at whatever point, also in the middle of its stream,
  the pipeline ends with the failure snapshot, after the snapshots yielded so far; it
  yields no snapshot of completion, and the text files are what they were before the
  run: neither of the two texts is written and the history file is not touched.
\<close>

theorem grading_failure_persists_nothing:
  "validate_image_files (up e) batch = Inr () \<and>
   stream_extract_text e batch w = (ys, Inr v, w1) \<and>
   stream_rate_text e (content_of (last_or_empty ys)) w1 = (zs, Inl err, w2) \<longrightarrow>
     full_process e batch history w =
       (Processing batch # map ExtractingText ys @
        map (\<lambda>z. GradingText (result_header @ z)) zs @
        [Failed (error_prefix @ message err)], w2) \<and>
     files (snd (full_process e batch history w)) = files w \<and>
     (\<forall>a b h. Done a b h \<notin> set (fst (full_process e batch history w)))"
proof (intro impI)
  assume a: "validate_image_files (up e) batch = Inr () \<and>
   stream_extract_text e batch w = (ys, Inr v, w1) \<and>
   stream_rate_text e (content_of (last_or_empty ys)) w1 = (zs, Inl err, w2)"
  then have r: "full_process e batch history w =
       (Processing batch # map ExtractingText ys @
        map (\<lambda>z. GradingText (result_header @ z)) zs @
        [Failed (error_prefix @ message err)], w2)"
    by (simp add: full_process_def Let_def)
  have "files w1 = files w"
    using a extract_keeps_files [of e batch w] by simp
  moreover have "files w2 = files w1"
    using a rate_keeps_files [of e "content_of (last_or_empty ys)" w1] by simp
  ultimately have f: "files w2 = files w" by simp
  show "full_process e batch history w =
       (Processing batch # map ExtractingText ys @
        map (\<lambda>z. GradingText (result_header @ z)) zs @
        [Failed (error_prefix @ message err)], w2) \<and>
     files (snd (full_process e batch history w)) = files w \<and>
     (\<forall>a b h. Done a b h \<notin> set (fst (full_process e batch history w)))"
    unfolding r using f by auto
qed

theorem grading_failure_persists_nothing_witness:
  "validate_image_files (up broken_env) [lit ''a.jpg''] = Inr () \<and>
   fst (full_process broken_env [lit ''a.jpg''] [] world0) =
     [Processing [lit ''a.jpg''],
      ExtractingText (lit ''Essay A''),
      ExtractingText (lit ''Essay A'' @ 10 # lit ''I went to school.''),
      GradingText (result_header @ lit ''Good.''),
      Failed (error_prefix @ lit ''connection lost'')] \<and>
   files (snd (full_process broken_env [lit ''a.jpg''] [] world0)) = files world0"
proof -
  let ?w1 = "world0\<lparr>requests := requests world0 @
      [ExtractionRequest [lit ''data:image/jpeg;base64,AQID'']]\<rparr>"
  let ?w2 = "log_event (lit ''ERROR'') rate_failed_msg (lit ''connection lost'')
      (?w1\<lparr>requests := requests ?w1 @
         [GradingRequest (lit ''Grade this essay.'' @ essay_follows @ lit ''I went to school.'')]\<rparr>)"
  have h1: "validate_image_files (up broken_env) [lit ''a.jpg''] = Inr ()"
    by (simp add: demo_validate)
  have h2: "stream_extract_text broken_env [lit ''a.jpg''] world0 =
      ([lit ''Essay A'', lit ''Essay A'' @ 10 # lit ''I went to school.''],
       Inr (lit ''Essay A'' @ 10 # lit ''I went to school.''), ?w1)"
    by (rule extract_demo) (simp_all add: broken_create)
  have f: "files ?w1 PROMPT_PATH = Some (lit ''Grade this essay.'')"
    by (simp add: world0_def)
  have h3: "stream_rate_text broken_env
      (content_of (last_or_empty [lit ''Essay A'', lit ''Essay A'' @ 10 # lit ''I went to school.'']))
      ?w1 = ([lit ''Good.''], Inl (APIError (lit ''connection lost'')), ?w2)"
    using broken_rate_run [OF f, of "lit ''I went to school.''"]
    by (simp add: last_or_empty_def demo_split)
  note t = grading_failure_persists_nothing [of broken_env "[lit ''a.jpg'']" world0
      "[lit ''Essay A'', lit ''Essay A'' @ 10 # lit ''I went to school.'']"
      "lit ''Essay A'' @ 10 # lit ''I went to school.''" ?w1
      "[lit ''Good.'']" "APIError (lit ''connection lost'')" ?w2 "[]", rule_format]
  from t [OF conjI [OF h1 conjI [OF h2 h3]]] h1 show ?thesis by simp
qed




section \<open>Loading the history\<close>





section \<open>Saving and loading the history\<close>













lemma encode_members_Cons:
  "encode_members l ((k, JStr v) # kvs) =
     34 # concat (map escape_char k) @ 34 # lit '': '' @ encode_basestring v @
       (if kvs = [] then [] else 44 # newline_indent l @ encode_members l kvs)"
  by (simp add: encode_basestring_def)

















section \<open>The example run, end to end\<close>

text \<open>
  The scenario of the specification: one valid page, an extraction in two pieces, a
  grading in two pieces. The run yields the snapshots in order and ends with the
  completion, whose entry has the title of the essay; the text file holds the body.
\<close>

lemma demo_names:
  "sanitize_filename (lit ''Essay A'') = lit ''Essay A''"
  "sanitize_filename (lit ''Essay A'' @ rate_suffix) = lit ''Essay A'' @ rate_suffix"
  by (simp_all add: sanitize_filename_def strip_def lstrip_def rstrip_def isspace_def
        forbidden_def rate_suffix_def lit_def)

lemma demo_full_run:
  "fst (full_process demo_env [lit ''a.jpg''] [] world0) =
     [Processing [lit ''a.jpg''],
      ExtractingText (lit ''Essay A''),
      ExtractingText (lit ''Essay A'' @ 10 # lit ''I went to school.''),
      GradingText (result_header @ lit ''Good.''),
      GradingText (result_header @ lit ''Good.'' @ lit '' Solid structure.''),
      Done (lit ''/app/texts/Essay A_20250101_120000.txt'')
           (lit ''/app/rates/Essay A'' @ rate_suffix @ lit ''_20250101_120001.txt'')
           [entry_json \<lparr>entry_title = lit ''Essay A'',
                        entry_timestamp = lit ''2025-01-01 12:00'',
                        entry_text_path = lit ''/app/texts/Essay A_20250101_120000.txt'',
                        entry_rate_path = lit ''/app/rates/Essay A'' @ rate_suffix @
                                          lit ''_20250101_120001.txt''\<rparr>]]"
  "files (snd (full_process demo_env [lit ''a.jpg''] [] world0))
     (lit ''/app/texts/Essay A_20250101_120000.txt'') = Some (lit ''I went to school.'')"
proof -
  let ?w1 = "world0\<lparr>requests := requests world0 @
      [ExtractionRequest [lit ''data:image/jpeg;base64,AQID'']]\<rparr>"
  have x: "stream_extract_text demo_env [lit ''a.jpg''] world0 =
      ([lit ''Essay A'', lit ''Essay A'' @ 10 # lit ''I went to school.''],
       Inr (lit ''Essay A'' @ 10 # lit ''I went to school.''), ?w1)"
    by (rule extract_demo) (simp_all add: demo_create)
  have f: "files ?w1 PROMPT_PATH = Some (lit ''Grade this essay.'')"
    by (simp add: world0_def)
  note r = demo_rate_run [OF f, of "lit ''I went to school.''"]
  have e: "resolve demo_env d = lit ''/app/'' @ d" "stamp_text demo_env = lit ''20250101_120000''"
    "stamp_rate demo_env = lit ''20250101_120001''" "stamp_entry demo_env = lit ''2025-01-01 12:00''" for d
    by (simp_all add: demo_env_def)
  have p: "full_process demo_env [lit ''a.jpg''] [] world0 =
      (case persist demo_env (lit ''Essay A'') (lit ''I went to school.'')
              (lit ''Good.'' @ lit '' Solid structure.'') []
              (?w1\<lparr>requests := requests ?w1 @
                 [GradingRequest (lit ''Grade this essay.'' @ essay_follows @ lit ''I went to school.'')]\<rparr>) of
         (done, w3) \<Rightarrow>
           ([Processing [lit ''a.jpg''],
             ExtractingText (lit ''Essay A''),
             ExtractingText (lit ''Essay A'' @ 10 # lit ''I went to school.''),
             GradingText (result_header @ lit ''Good.''),
             GradingText (result_header @ lit ''Good.'' @ lit '' Solid structure.'')] @ [done], w3))"
    by (simp add: full_process_def demo_validate x last_or_empty_def demo_split r Let_def)
  show "fst (full_process demo_env [lit ''a.jpg''] [] world0) =
     [Processing [lit ''a.jpg''],
      ExtractingText (lit ''Essay A''),
      ExtractingText (lit ''Essay A'' @ 10 # lit ''I went to school.''),
      GradingText (result_header @ lit ''Good.''),
      GradingText (result_header @ lit ''Good.'' @ lit '' Solid structure.''),
      Done (lit ''/app/texts/Essay A_20250101_120000.txt'')
           (lit ''/app/rates/Essay A'' @ rate_suffix @ lit ''_20250101_120001.txt'')
           [entry_json \<lparr>entry_title = lit ''Essay A'',
                        entry_timestamp = lit ''2025-01-01 12:00'',
                        entry_text_path = lit ''/app/texts/Essay A_20250101_120000.txt'',
                        entry_rate_path = lit ''/app/rates/Essay A'' @ rate_suffix @
                                          lit ''_20250101_120001.txt''\<rparr>]]"
    unfolding p
    by (simp add: persist_def safe_save_def demo_names e TEXTS_DIR_def RATES_DIR_def Let_def)
       (simp add: lit_def)
  show "files (snd (full_process demo_env [lit ''a.jpg''] [] world0))
     (lit ''/app/texts/Essay A_20250101_120000.txt'') = Some (lit ''I went to school.'')"
    unfolding p
    by (simp add: persist_def safe_save_def save_history_def demo_names e TEXTS_DIR_def
          RATES_DIR_def HISTORY_PATH_def Let_def)
       (simp add: lit_def rate_suffix_def)
qed

end
